theory Spec2Isabelle
  imports Main
begin

section \<open>JavaScript values\<close>

text \<open>
  The script is JavaScript, so the data it receives from the Graph API and the objects
  it builds are dynamically typed. They are modelled by one datatype of values.
  Numbers are restricted to integers; an object is the list of its own properties.
\<close>

datatype json =
    JUndefined
  | JNull
  | JBool bool
  | JNum int
  | JStr string
  | JArr "json list"
  | JObj "(string \<times> json) list"

text \<open>
  What the script can throw: \<open>Error msg\<close> is \<^verbatim>\<open>throw new Error(msg)\<close>,
  \<open>TypeError\<close> is the runtime's error for a property read on \<^verbatim>\<open>null\<close> or
  \<^verbatim>\<open>undefined\<close> and for a call of something that is not a function,
  \<open>RemoteError\<close> is a rejection of the Graph API transport and
  \<open>WarehouseError\<close> a rejection of the BigQuery client.
\<close>

datatype error =
    Error string
  | TypeError
  | RemoteError string
  | WarehouseError string

fun show_nat :: "nat \<Rightarrow> string" where
  "show_nat n =
     (if n < 10 then [''0123456789'' ! n]
      else show_nat (n div 10) @ [''0123456789'' ! (n mod 10)])"

definition show_int :: "int \<Rightarrow> string" where
  "show_int i = (if i < 0 then CHR ''-'' # show_nat (nat (- i)) else show_nat (nat i))"

text \<open>\<^verbatim>\<open>Array.prototype.join\<close> on strings that are already converted.\<close>

fun join :: "string \<Rightarrow> string list \<Rightarrow> string" where
  "join sep [] = []"
| "join sep [x] = x"
| "join sep (x # y # ys) = x @ sep @ join sep (y # ys)"

text \<open>
  \<^verbatim>\<open>String(v)\<close>, the conversion a template literal \<^verbatim>\<open>`${v}`\<close> applies. An array
  is its elements joined by a comma, \<^verbatim>\<open>null\<close> and \<^verbatim>\<open>undefined\<close> elements
  giving the empty string. A number is printed in plain decimal, which is what
  JavaScript prints for an integer below \<open>10\<^sup>2\<^sup>1\<close> in magnitude; the ids of the
  Graph API are strings.
\<close>

fun to_str :: "json \<Rightarrow> string" where
  "to_str JUndefined = ''undefined''"
| "to_str JNull = ''null''"
| "to_str (JBool b) = (if b then ''true'' else ''false'')"
| "to_str (JNum n) = show_int n"
| "to_str (JStr s) = s"
| "to_str (JArr xs) =
     join '','' (map (\<lambda>x. if x = JUndefined \<or> x = JNull then [] else to_str x) xs)"
| "to_str (JObj fs) = ''[object Object]''"

text \<open>
  A property read \<^verbatim>\<open>v.k\<close> (also the destructuring \<^verbatim>\<open>({k}) => ...\<close>), for the
  property names the script reads (\<^verbatim>\<open>id\<close>, \<^verbatim>\<open>account_id\<close>, \<^verbatim>\<open>period\<close>,
  \<^verbatim>\<open>breakdowns\<close>): it throws on \<^verbatim>\<open>null\<close> and \<^verbatim>\<open>undefined\<close>, and a value
  that has no such property gives \<^verbatim>\<open>undefined\<close>.
\<close>

fun get_prop :: "string \<Rightarrow> json \<Rightarrow> error + json" where
  "get_prop k JUndefined = Inl TypeError"
| "get_prop k JNull = Inl TypeError"
| "get_prop k (JObj fs) = Inr (case map_of fs k of Some v \<Rightarrow> v | None \<Rightarrow> JUndefined)"
| "get_prop k v = Inr JUndefined"

text \<open>
  \<^verbatim>\<open>v.join(sep)\<close>: defined on arrays only; on any other value the property
  \<^verbatim>\<open>join\<close> is missing (or the read itself throws) and the call is a TypeError.
\<close>

fun js_join :: "string \<Rightarrow> json \<Rightarrow> error + string" where
  "js_join sep (JArr xs) =
     Inr (join sep (map (\<lambda>x. if x = JUndefined \<or> x = JNull then [] else to_str x) xs))"
| "js_join sep v = Inl TypeError"

text \<open>\<^verbatim>\<open>Array.prototype.flat()\<close> with its default depth 1.\<close>

definition flat :: "json list \<Rightarrow> json list" where
  "flat xs = concat (map (\<lambda>x. case x of JArr ys \<Rightarrow> ys | _ \<Rightarrow> [x]) xs)"

section \<open>Remote calls\<close>

text \<open>
  \<^verbatim>\<open>fetchGraphApi(path, payload)\<close> comes from \<^verbatim>\<open>createFetchGraphApi\<close>, which is
  outside the script; it is the parameter \<open>remote\<close>. Every endpoint the script calls is
  a listing, and the script treats each answer as an array (\<^verbatim>\<open>.flat()\<close>, the items
  given to \<^verbatim>\<open>paralellize\<close>), so an answer is a list of values or a rejection. The
  payload is absent (\<open>None\<close>) when the script passes one argument.

  A computation of the script returns its result together with the calls it issued, in
  the order of issue.
\<close>

type_synonym payload = "(string \<times> json) list"
type_synonym call = "string \<times> payload option"
type_synonym remote = "call \<Rightarrow> error + json list"
type_synonym 'a io = "(error + 'a) \<times> call list"

definition io_return :: "'a \<Rightarrow> 'a io" where
  "io_return x = (Inr x, [])"

definition io_throw :: "error \<Rightarrow> 'a io" where
  "io_throw e = (Inl e, [])"

definition io_bind :: "'a io \<Rightarrow> ('a \<Rightarrow> 'b io) \<Rightarrow> 'b io" where
  "io_bind m f =
     (case m of
        (Inl e, l) \<Rightarrow> (Inl e, l)
      | (Inr x, l) \<Rightarrow> (case f x of (r, l') \<Rightarrow> (r, l @ l')))"

definition io_lift :: "error + 'a \<Rightarrow> 'a io" where
  "io_lift r = (r, [])"

definition io_map :: "('a \<Rightarrow> 'b) \<Rightarrow> 'a io \<Rightarrow> 'b io" where
  "io_map g m = io_bind m (\<lambda>x. io_return (g x))"

definition fetchGraphApi :: "remote \<Rightarrow> string \<Rightarrow> payload option \<Rightarrow> json list io" where
  "fetchGraphApi remote path payload = (remote (path, payload), [(path, payload)])"

text \<open>
  Modelled from the spec: \<^verbatim>\<open>paralellize\<close> of \<^verbatim>\<open>lib/utils\<close>, which is not among the
  sources. The spec describes it as the shared concurrency primitive that maps over a
  collection, executes all units with a cap on the calls in flight, and fails the
  batch when a unit fails; flattening is a separate step of its callers, as the
  script's own \<^verbatim>\<open>.flat()\<close> calls on its results show. The answers of \<open>remote\<close>
  depend on the request only, so the cap and the interleaving do not show in the
  results: the units run in the order of the collection, and a failing unit ends the
  batch with its error.
\<close>

fun paralellize :: "'a list \<Rightarrow> ('a \<Rightarrow> 'b io) \<Rightarrow> 'b list io" where
  "paralellize [] f = io_return []"
| "paralellize (x # xs) f =
     io_bind (f x) (\<lambda>y. io_bind (paralellize xs f) (\<lambda>ys. io_return (y # ys)))"

section \<open>The script's constants\<close>

definition AD_ACCOUNT_SOURCES :: "(string \<times> string) list" where
  "AD_ACCOUNT_SOURCES = [(''personal'', ''personal''), (''business'', ''business'')]"

definition PERIODS :: "(string \<times> string) list" where
  "PERIODS = [(''daily'', ''daily''), (''lifetime'', ''lifetime'')]"

definition BREAKDOWNS :: "string list list" where
  "BREAKDOWNS = [[''age'', ''gender''], [''country'', ''region'']]"

definition USER_ID :: string where
  "USER_ID = ''10235767919166237''"

text \<open>
  \<^verbatim>\<open>OBJ.key\<close> on one of the constant objects above, and \<^verbatim>\<open>Object.keys(OBJ)\<close>.
\<close>

definition member_of :: "(string \<times> string) list \<Rightarrow> string \<Rightarrow> json" where
  "member_of obj k = (case map_of obj k of Some v \<Rightarrow> JStr v | None \<Rightarrow> JUndefined)"

definition object_keys :: "(string \<times> 'a) list \<Rightarrow> string list" where
  "object_keys obj = map fst obj"

section \<open>Resolving ad accounts\<close>

text \<open>
  \<^verbatim>\<open>fetchAdAccounts(source)\<close>: the \<^verbatim>\<open>switch\<close> compares with \<^verbatim>\<open>===\<close>. The business
  branch returns what \<^verbatim>\<open>paralellize\<close> returns: one array per business.
\<close>

definition fetchAdAccounts :: "remote \<Rightarrow> json \<Rightarrow> json list io" where
  "fetchAdAccounts remote source =
     (if source = member_of AD_ACCOUNT_SOURCES ''personal'' then
        fetchGraphApi remote ''/me/adaccounts'' None
      else if source = member_of AD_ACCOUNT_SOURCES ''business'' then
        io_bind (fetchGraphApi remote ''/me/businesses'' None) (\<lambda>businesses.
          paralellize businesses (\<lambda>business.
            io_bind (io_lift (get_prop ''id'' business)) (\<lambda>id.
              io_map JArr
                (fetchGraphApi remote (''/'' @ to_str id @ ''/owned_ad_accounts'') None))))
      else io_throw (Error (''Unknown ad accounts source '' @ to_str source)))"

text \<open>
  Line 64 of the script: the ads of the accounts, one listing per account, flattened.
\<close>

definition fetchAds :: "remote \<Rightarrow> json list \<Rightarrow> json list io" where
  "fetchAds remote adAccounts =
     io_map flat
       (paralellize adAccounts (\<lambda>account.
          io_bind (io_lift (get_prop ''id'' account)) (\<lambda>id.
            io_map JArr
              (fetchGraphApi remote (''/'' @ to_str id @ ''/ads'')
                 (Some [(''fields'', JArr [JStr ''ad_id'', JStr ''account_id''])])))))"

section \<open>The insights fan-out\<close>

text \<open>
  \<^verbatim>\<open>fetchAdInsights(adId, period, breakdowns)\<close>. \<open>metrics\<close> is
  \<^verbatim>\<open>Object.keys(zodSchemas.metrics)\<close>, a table outside the script. \<open>period\<close> is a key
  of \<open>PERIODS\<close> and \<open>breakdowns\<close> an element of \<open>BREAKDOWNS\<close>.
\<close>

definition insights_payload :: "string list \<Rightarrow> string \<Rightarrow> string list \<Rightarrow> payload" where
  "insights_payload metrics period breakdowns =
     (let payload = [(''fields'', JArr (map JStr metrics)),
                     (''breakdowns'', JArr (map JStr breakdowns))]
      in if JStr period = member_of PERIODS ''daily''
         then payload @ [(''time_increment'', JNum 1)] else payload)"

definition fetchAdInsights ::
  "remote \<Rightarrow> string list \<Rightarrow> json \<Rightarrow> string \<Rightarrow> string list \<Rightarrow> json list io" where
  "fetchAdInsights remote metrics adId period breakdowns =
     fetchGraphApi remote (''/'' @ to_str adId @ ''/insights'')
       (Some (insights_payload metrics period breakdowns))"

text \<open>The object built for one ad, period and breakdown combination.\<close>

definition insight_record :: "json \<Rightarrow> json \<Rightarrow> string \<Rightarrow> string list \<Rightarrow> json list \<Rightarrow> json" where
  "insight_record account_id ad_id period breakdowns insights =
     JObj [(''user_id'', JStr USER_ID),
           (''ad_account_id'', account_id),
           (''ad_id'', ad_id),
           (''period'', JStr period),
           (''breakdowns'', JArr (map JStr breakdowns)),
           (''insights'', JArr insights)]"

text \<open>
  The innermost callback: the object literal reads \<^verbatim>\<open>ad.account_id\<close> and
  \<^verbatim>\<open>ad.id\<close> before the insights call is made.
\<close>

definition insight_unit ::
  "remote \<Rightarrow> string list \<Rightarrow> string \<Rightarrow> string list \<Rightarrow> json \<Rightarrow> json io" where
  "insight_unit remote metrics period breakdowns ad =
     io_bind (io_lift (get_prop ''account_id'' ad)) (\<lambda>account_id.
       io_bind (io_lift (get_prop ''id'' ad)) (\<lambda>ad_id.
         io_bind (fetchAdInsights remote metrics ad_id period breakdowns) (\<lambda>insights.
           io_return (insight_record account_id ad_id period breakdowns insights))))"

text \<open>
  The three nested \<^verbatim>\<open>paralellize\<close> calls and the four \<^verbatim>\<open>.flat()\<close> calls, with
  the periods and the breakdown combinations as arguments.
\<close>

definition fanout ::
  "remote \<Rightarrow> string list \<Rightarrow> string list \<Rightarrow> string list list \<Rightarrow> json list \<Rightarrow> json list io" where
  "fanout remote metrics periods breakdownss ads =
     io_map (\<lambda>r. flat (flat (flat (flat r))))
       (paralellize periods (\<lambda>period.
          io_map JArr
            (paralellize breakdownss (\<lambda>breakdowns.
               io_map JArr
                 (paralellize ads (insight_unit remote metrics period breakdowns))))))"

definition brokenDownInsights :: "remote \<Rightarrow> string list \<Rightarrow> json list \<Rightarrow> json list io" where
  "brokenDownInsights remote metrics ads =
     fanout remote metrics (object_keys PERIODS) BREAKDOWNS ads"

section \<open>Loading into the warehouse\<close>

text \<open>
  The callback of the load computes the table name from the record:
  \<^verbatim>\<open>const {breakdowns, period} = data\<close>, \<^verbatim>\<open>breakdowns.join('_')\<close> and the template
  literal.
\<close>

definition tableName :: "json \<Rightarrow> error + string" where
  "tableName data =
     (case get_prop ''breakdowns'' data of
        Inl e \<Rightarrow> Inl e
      | Inr breakdowns \<Rightarrow>
          (case get_prop ''period'' data of
             Inl e \<Rightarrow> Inl e
           | Inr period \<Rightarrow>
               (case js_join ''_'' breakdowns of
                  Inl e \<Rightarrow> Inl e
                | Inr breakdownName \<Rightarrow>
                    Inr (''facebook_ads_insights_'' @ to_str period @ ''_'' @ breakdownName))))"

definition fullyQualifiedTableName :: "string \<Rightarrow> string \<Rightarrow> string" where
  "fullyQualifiedTableName projectId tn = projectId @ ''.facebook_ads_insights.'' @ tn"

text \<open>
  What the load uses from outside the script: \<^verbatim>\<open>config.projectId\<close>, the table
  \<^verbatim>\<open>zodSchemas.schemas\<close> (a name that is not registered reads as \<^verbatim>\<open>undefined\<close>,
  here \<open>None\<close>), \<^verbatim>\<open>bigQuery.getTable\<close> and the \<^verbatim>\<open>insert\<close> of a table handle.
  A table handle is an object, so it is truthy.
\<close>

record ('s, 'h) loader_env =
  projectId :: string
  schemas :: "string \<Rightarrow> 's option"
  getTable :: "string \<Rightarrow> 's option \<Rightarrow> error + 'h"
  table_insert :: "'h \<Rightarrow> json \<Rightarrow> error + unit"

datatype ('s, 'h) wcall =
    GetTable string "'s option"
  | Insert 'h json

text \<open>
  The load is \<^verbatim>\<open>Promise.all(brokenDownInsights.map(async (data) => ...))\<close>. An async
  callback runs synchronously up to its first \<^verbatim>\<open>await\<close>, and \<^verbatim>\<open>map\<close> calls the
  callbacks one after the other, so every callback reaches its first \<^verbatim>\<open>await\<close> before
  any of them is resumed. A task is a callback at one of its \<^verbatim>\<open>await\<close>s, or settled.
\<close>

datatype ('s, 'h) task =
    AwaitGetTable json string string "'s option"
  | AwaitInsert 'h json
  | Fulfilled
  | Rejected error

text \<open>
  The state the callbacks share: the object \<^verbatim>\<open>tables\<close>, the warehouse calls issued
  so far, and the rejections so far, in the order they happened (\<^verbatim>\<open>Promise.all\<close>
  rejects with the first).
\<close>

record ('s, 'h) loader_state =
  tables :: "string \<Rightarrow> 'h option"
  issued :: "('s, 'h) wcall list"
  rejections :: "error list"

definition initial_state :: "('s, 'h) loader_state" where
  "initial_state = \<lparr>tables = (\<lambda>tn. None), issued = [], rejections = []\<rparr>"

text \<open>The callback from its start to its first \<^verbatim>\<open>await\<close>.\<close>

definition start ::
  "('s, 'h) loader_env \<Rightarrow> ('s, 'h) loader_state \<Rightarrow> json \<Rightarrow>
   ('s, 'h) loader_state \<times> ('s, 'h) task" where
  "start env st data =
     (case tableName data of
        Inl e \<Rightarrow> (st\<lparr>rejections := rejections st @ [e]\<rparr>, Rejected e)
      | Inr tn \<Rightarrow>
          (case tables st tn of
             None \<Rightarrow>
               (let fq = fullyQualifiedTableName (projectId env) tn;
                    schema = schemas env tn
                in (st\<lparr>issued := issued st @ [GetTable fq schema]\<rparr>,
                    AwaitGetTable data tn fq schema))
           | Some table \<Rightarrow>
               (st\<lparr>issued := issued st @ [Insert table data]\<rparr>, AwaitInsert table data)))"

text \<open>The callback from the \<^verbatim>\<open>await\<close> it is at to its next one, or to its end.\<close>

fun resume ::
  "('s, 'h) loader_env \<Rightarrow> ('s, 'h) loader_state \<Rightarrow> ('s, 'h) task \<Rightarrow>
   ('s, 'h) loader_state \<times> ('s, 'h) task" where
  "resume env st (AwaitGetTable data tn fq schema) =
     (case getTable env fq schema of
        Inl e \<Rightarrow> (st\<lparr>rejections := rejections st @ [e]\<rparr>, Rejected e)
      | Inr table \<Rightarrow>
          (st\<lparr>tables := (tables st)(tn \<mapsto> table), issued := issued st @ [Insert table data]\<rparr>,
           AwaitInsert table data))"
| "resume env st (AwaitInsert table data) =
     (case table_insert env table data of
        Inl e \<Rightarrow> (st\<lparr>rejections := rejections st @ [e]\<rparr>, Rejected e)
      | Inr u \<Rightarrow> (st, Fulfilled))"
| "resume env st Fulfilled = (st, Fulfilled)"
| "resume env st (Rejected e) = (st, Rejected e)"

text \<open>\<^verbatim>\<open>brokenDownInsights.map(async ...)\<close>: every callback up to its first \<^verbatim>\<open>await\<close>.\<close>

fun start_all ::
  "('s, 'h) loader_env \<Rightarrow> ('s, 'h) loader_state \<Rightarrow> json list \<Rightarrow>
   ('s, 'h) loader_state \<times> ('s, 'h) task list" where
  "start_all env st [] = (st, [])"
| "start_all env st (d # ds) =
     (case start env st d of
        (st1, t) \<Rightarrow> (case start_all env st1 ds of (st2, ts) \<Rightarrow> (st2, t # ts)))"

text \<open>
  The event loop afterwards. The order in which the pending promises settle is not
  fixed by the script: a schedule lists the indices of the tasks in the order they are
  resumed.
\<close>

fun run_schedule ::
  "('s, 'h) loader_env \<Rightarrow> nat list \<Rightarrow> ('s, 'h) loader_state \<times> ('s, 'h) task list \<Rightarrow>
   ('s, 'h) loader_state \<times> ('s, 'h) task list" where
  "run_schedule env [] c = c"
| "run_schedule env (i # is) (st, ts) =
     (if i < length ts then
        (case resume env st (ts ! i) of (st', t') \<Rightarrow> run_schedule env is (st', ts[i := t']))
      else run_schedule env is (st, ts))"

definition load ::
  "('s, 'h) loader_env \<Rightarrow> json list \<Rightarrow> nat list \<Rightarrow>
   ('s, 'h) loader_state \<times> ('s, 'h) task list" where
  "load env records schedule = run_schedule env schedule (start_all env initial_state records)"

text \<open>
  What \<^verbatim>\<open>await Promise.all(...)\<close> gives: the first rejection, or success once every
  task is fulfilled; \<open>None\<close> while it is pending.
\<close>

definition promise_all :: "('s, 'h) loader_state \<times> ('s, 'h) task list \<Rightarrow> (error + unit) option" where
  "promise_all c =
     (case rejections (fst c) of
        e # es \<Rightarrow> Some (Inl e)
      | [] \<Rightarrow> if list_all (\<lambda>t. t = Fulfilled) (snd c) then Some (Inr ()) else None)"

text \<open>A task has a warehouse call in flight while it is at an \<^verbatim>\<open>await\<close>.\<close>

fun pending :: "('s, 'h) task \<Rightarrow> bool" where
  "pending (AwaitGetTable data tn fq schema) = True"
| "pending (AwaitInsert table data) = True"
| "pending t = False"

definition in_flight :: "('s, 'h) task list \<Rightarrow> nat" where
  "in_flight ts = length (filter pending ts)"

fun is_GetTable :: "('s, 'h) wcall \<Rightarrow> bool" where
  "is_GetTable (GetTable fq schema) = True"
| "is_GetTable (Insert table data) = False"

section \<open>Notions used to state the properties\<close>

text \<open>A property of a value that is known to be an object.\<close>

definition field :: "string \<Rightarrow> json \<Rightarrow> json" where
  "field k v = (case get_prop k v of Inr x \<Rightarrow> x | Inl e \<Rightarrow> JUndefined)"

text \<open>The (adId, period, breakdowns) key of a record.\<close>

definition request_key :: "json \<Rightarrow> json \<times> json \<times> json" where
  "request_key r = (field ''ad_id'' r, field ''period'' r, field ''breakdowns'' r)"

text \<open>The call \<open>fetchAdInsights\<close> issues.\<close>

definition insights_call :: "string list \<Rightarrow> json \<Rightarrow> string \<Rightarrow> string list \<Rightarrow> call" where
  "insights_call metrics adId period breakdowns =
     (''/'' @ to_str adId @ ''/insights'', Some (insights_payload metrics period breakdowns))"

text \<open>
  The combinations of the fan-out, in the order of the nesting: periods outermost, then
  breakdown combinations, then ads.
\<close>

definition matrix :: "'p list \<Rightarrow> 'b list \<Rightarrow> 'a list \<Rightarrow> ('p \<times> 'b \<times> 'a) list" where
  "matrix periods breakdownss ads =
     concat (map (\<lambda>p. concat (map (\<lambda>b. map (\<lambda>ad. (p, b, ad)) ads) breakdownss)) periods)"

definition matrix_key :: "string \<times> string list \<times> json \<Rightarrow> json \<times> json \<times> json" where
  "matrix_key = (\<lambda>(p, b, ad). (field ''id'' ad, JStr p, JArr (map JStr b)))"

definition unit_call :: "string list \<Rightarrow> string \<times> string list \<times> json \<Rightarrow> call" where
  "unit_call metrics = (\<lambda>(p, b, ad). insights_call metrics (field ''id'' ad) p b)"

definition unit_record :: "remote \<Rightarrow> string list \<Rightarrow> string \<times> string list \<times> json \<Rightarrow> json" where
  "unit_record remote metrics = (\<lambda>(p, b, ad).
     insight_record (field ''account_id'' ad) (field ''id'' ad) p b
       (projr (remote (insights_call metrics (field ''id'' ad) p b))))"

text \<open>The first warehouse call of the callback for a well-formed record, and the task that waits for it.\<close>

definition first_call :: "('s, 'h) loader_env \<Rightarrow> json \<Rightarrow> ('s, 'h) wcall" where
  "first_call env data =
     GetTable (fullyQualifiedTableName (projectId env) (projr (tableName data)))
       (schemas env (projr (tableName data)))"

definition first_task :: "('s, 'h) loader_env \<Rightarrow> json \<Rightarrow> ('s, 'h) task" where
  "first_task env data =
     AwaitGetTable data (projr (tableName data))
       (fullyQualifiedTableName (projectId env) (projr (tableName data)))
       (schemas env (projr (tableName data)))"

section \<open>Concrete inputs\<close>

text \<open>An ad as the ads listing returns it, and a record of the fan-out for it.\<close>

definition example_ad :: "string \<Rightarrow> json" where
  "example_ad i = JObj [(''id'', JStr i), (''account_id'', JStr ''act_7'')]"

definition example_record :: "string \<Rightarrow> json" where
  "example_record i = insight_record (JStr ''act_7'') (JStr i) ''daily'' [''age'', ''gender''] []"

text \<open>
  A schema table with no entry and one with an entry for every name, each with a warehouse
  client that accepts every call; the handle of a table is its qualified name.
\<close>

definition no_schemas :: "(unit, string) loader_env" where
  "no_schemas =
     \<lparr>projectId = ''proj'', schemas = (\<lambda>tn. None),
      getTable = (\<lambda>fq schema. Inr fq), table_insert = (\<lambda>table data. Inr ())\<rparr>"

definition all_schemas :: "(string, string) loader_env" where
  "all_schemas =
     \<lparr>projectId = ''proj'', schemas = (\<lambda>tn. Some tn),
      getTable = (\<lambda>fq schema. Inr fq), table_insert = (\<lambda>table data. Inr ())\<rparr>"

text \<open>A user in two businesses, each owning one ad account.\<close>

definition two_businesses :: remote where
  "two_businesses c =
     (if c = (''/me/businesses'', None) then
        Inr [JObj [(''id'', JStr ''b1'')], JObj [(''id'', JStr ''b2'')]]
      else if c = (''/b1/owned_ad_accounts'', None) then Inr [JObj [(''id'', JStr ''act_1'')]]
      else if c = (''/b2/owned_ad_accounts'', None) then Inr [JObj [(''id'', JStr ''act_2'')]]
      else Inl (RemoteError ''unknown path''))"

section \<open>Facts about the helpers\<close>

lemma io_bind_return [simp]: "io_bind (Inr x, l) f = (case f x of (r, l') \<Rightarrow> (r, l @ l'))"
  by (simp add: io_bind_def)

lemma io_bind_throw [simp]: "io_bind (Inl e, l) f = (Inl e, l)"
  by (simp add: io_bind_def)

lemma io_map_ok [simp]: "io_map g (Inr x, l) = (Inr (g x), l)"
  by (simp add: io_map_def io_return_def)

lemma io_map_err [simp]: "io_map g (Inl e, l) = (Inl e, l)"
  by (simp add: io_map_def)

lemma fst_io_map_Inl: "fst (io_map g m) = Inl e \<longleftrightarrow> fst m = Inl e"
  by (cases m; cases "fst m") auto

lemma paralellize_all_ok:
  "(\<And>x. x \<in> set xs \<Longrightarrow> f x = (Inr (g x), l x)) \<Longrightarrow>
   paralellize xs f = (Inr (map g xs), concat (map l xs))"
  by (induction xs) (simp_all add: io_return_def)

lemma isl_fst_io_map: "isl (fst (io_map g m)) \<longleftrightarrow> isl (fst m)"
  by (cases m; cases "fst m") auto

lemma paralellize_fails:
  "x \<in> set xs \<Longrightarrow> isl (fst (f x)) \<Longrightarrow> isl (fst (paralellize xs f))"
proof (induction xs)
  case Nil
  then show ?case by simp
next
  case (Cons a xs)
  obtain r l where fa: "f a = (r, l)" by (cases "f a")
  show ?case
  proof (cases r)
    case (Inl e)
    then show ?thesis using fa by simp
  next
    case (Inr y)
    with fa Cons.prems have "x \<in> set xs" by auto
    from Cons.IH [OF this Cons.prems(2)] obtain e l'
      where "paralellize xs f = (Inl e, l')"
      by (cases "paralellize xs f"; cases "fst (paralellize xs f)") auto
    with fa Inr show ?thesis by simp
  qed
qed

lemma paralellize_error:
  "fst (paralellize xs f) = Inl e \<Longrightarrow> \<exists>y\<in>set xs. fst (f y) = Inl e"
proof (induction xs)
  case Nil
  then show ?case by (simp add: io_return_def)
next
  case (Cons a xs)
  obtain r l where fa: "f a = (r, l)" by (cases "f a")
  show ?case
  proof (cases r)
    case (Inl e')
    then show ?thesis using fa Cons.prems by simp
  next
    case (Inr y)
    obtain r' l' where p: "paralellize xs f = (r', l')" by (cases "paralellize xs f")
    with fa Inr Cons.prems have "r' = Inl e"
      by (cases r') (simp_all add: io_return_def)
    with p Cons.IH show ?thesis by simp
  qed
qed

lemma flat_map_JArr: "flat (map (\<lambda>x. JArr (h x)) xs) = concat (map h xs)"
  by (simp add: flat_def comp_def)

lemma flat_concat: "flat (concat xss) = concat (map flat xss)"
  by (induction xss) (simp_all add: flat_def)

lemma flat_unit_records:
  "flat (map (\<lambda>x. unit_record remote metrics (h x)) xs) =
   map (\<lambda>x. unit_record remote metrics (h x)) xs"
  by (induction xs) (simp_all add: flat_def unit_record_def insight_record_def split: prod.splits)

lemma get_prop_field: "v \<noteq> JNull \<Longrightarrow> v \<noteq> JUndefined \<Longrightarrow> get_prop k v = Inr (field k v)"
  by (cases v) (simp_all add: field_def)

lemma insight_unit_ok:
  assumes "ad \<noteq> JNull" "ad \<noteq> JUndefined"
    and "\<not> isl (remote (insights_call metrics (field ''id'' ad) period breakdowns))"
  shows "insight_unit remote metrics period breakdowns ad =
     (Inr (unit_record remote metrics (period, breakdowns, ad)),
      [unit_call metrics (period, breakdowns, ad)])"
proof -
  obtain r where r: "remote (insights_call metrics (field ''id'' ad) period breakdowns) = Inr r"
    using assms(3) by (cases "remote (insights_call metrics (field ''id'' ad) period breakdowns)") auto
  show ?thesis
    using r by (simp add: insight_unit_def get_prop_field [OF assms(1,2)] io_lift_def
        fetchAdInsights_def fetchGraphApi_def insights_call_def io_return_def
        unit_record_def unit_call_def)
qed

lemma insight_unit_error:
  assumes "fst (insight_unit remote metrics period breakdowns ad) = Inl e"
  shows "e = TypeError \<and> (ad = JNull \<or> ad = JUndefined) \<or>
         remote (insights_call metrics (field ''id'' ad) period breakdowns) = Inl e"
proof (cases "ad = JNull \<or> ad = JUndefined")
  case True
  then show ?thesis using assms by (auto simp: insight_unit_def io_lift_def)
next
  case False
  then have g: "get_prop k ad = Inr (field k ad)" for k by (simp add: get_prop_field)
  show ?thesis
    using assms
    by (cases "remote (insights_call metrics (field ''id'' ad) period breakdowns)")
       (simp_all add: insight_unit_def g io_lift_def fetchAdInsights_def fetchGraphApi_def
          insights_call_def io_return_def)
qed

lemma fanout_ok:
  assumes ads: "\<forall>ad\<in>set ads. ad \<noteq> JNull \<and> ad \<noteq> JUndefined"
    and ok: "\<forall>p\<in>set periods. \<forall>b\<in>set bss. \<forall>ad\<in>set ads.
               \<not> isl (remote (insights_call metrics (field ''id'' ad) p b))"
  shows "fanout remote metrics periods bss ads =
     (Inr (map (unit_record remote metrics) (matrix periods bss ads)),
      map (unit_call metrics) (matrix periods bss ads))"
proof -
  have inner: "paralellize ads (insight_unit remote metrics p b) =
      (Inr (map (\<lambda>ad. unit_record remote metrics (p, b, ad)) ads),
       concat (map (\<lambda>ad. [unit_call metrics (p, b, ad)]) ads))"
    if "p \<in> set periods" "b \<in> set bss" for p b
    by (rule paralellize_all_ok) (use that ads ok in \<open>simp add: insight_unit_ok\<close>)
  have middle: "paralellize bss (\<lambda>b. io_map JArr (paralellize ads (insight_unit remote metrics p b))) =
      (Inr (map (\<lambda>b. JArr (map (\<lambda>ad. unit_record remote metrics (p, b, ad)) ads)) bss),
       concat (map (\<lambda>b. concat (map (\<lambda>ad. [unit_call metrics (p, b, ad)]) ads)) bss))"
    if "p \<in> set periods" for p
    by (rule paralellize_all_ok) (use that in \<open>simp add: inner\<close>)
  have outer: "paralellize periods (\<lambda>p. io_map JArr
        (paralellize bss (\<lambda>b. io_map JArr (paralellize ads (insight_unit remote metrics p b))))) =
      (Inr (map (\<lambda>p. JArr (map (\<lambda>b. JArr (map (\<lambda>ad. unit_record remote metrics (p, b, ad)) ads)) bss)) periods),
       concat (map (\<lambda>p. concat (map (\<lambda>b. concat (map (\<lambda>ad. [unit_call metrics (p, b, ad)]) ads)) bss)) periods))"
    by (rule paralellize_all_ok) (simp add: middle)
  have fl: "flat (flat (flat (flat (map (\<lambda>p. JArr (map (\<lambda>b. JArr (map (\<lambda>ad. unit_record remote metrics (p, b, ad)) ads)) bss)) periods))))
      = map (unit_record remote metrics) (matrix periods bss ads)"
    by (simp add: flat_map_JArr flat_concat comp_def matrix_def map_concat flat_unit_records)
  have lg: "concat (map (\<lambda>p. concat (map (\<lambda>b. concat (map (\<lambda>ad. [unit_call metrics (p, b, ad)]) ads)) bss)) periods)
      = map (unit_call metrics) (matrix periods bss ads)"
    by (simp add: matrix_def map_concat comp_def)
  show ?thesis
    by (simp only: fanout_def outer io_map_ok fl lg)
qed

lemma fanout_fails:
  assumes "p \<in> set periods" "b \<in> set bss" "ad \<in> set ads"
    and "isl (fst (insight_unit remote metrics p b ad))"
  shows "\<exists>e. fst (fanout remote metrics periods bss ads) = Inl e \<and>
           (\<exists>p'\<in>set periods. \<exists>b'\<in>set bss. \<exists>ad'\<in>set ads.
              fst (insight_unit remote metrics p' b' ad') = Inl e)"
proof -
  let ?inner = "\<lambda>p b. io_map JArr (paralellize ads (insight_unit remote metrics p b))"
  let ?middle = "\<lambda>p. io_map JArr (paralellize bss (?inner p))"
  have "isl (fst (?inner p b))"
    using paralellize_fails [of ad ads "insight_unit remote metrics p b"] assms(3,4)
    by (simp add: isl_fst_io_map)
  then have "isl (fst (?middle p))"
    using paralellize_fails [of b bss "?inner p"] assms(2) by (simp add: isl_fst_io_map)
  then have "isl (fst (paralellize periods ?middle))"
    using paralellize_fails [of p periods ?middle] assms(1) by simp
  then obtain e where e: "fst (paralellize periods ?middle) = Inl e"
    by (cases "fst (paralellize periods ?middle)") auto
  then obtain p' where p': "p' \<in> set periods" "fst (paralellize bss (?inner p')) = Inl e"
    using paralellize_error [of periods ?middle e] by (auto simp: fst_io_map_Inl)
  then obtain b' where b': "b' \<in> set bss"
      "fst (paralellize ads (insight_unit remote metrics p' b')) = Inl e"
    using paralellize_error [of bss "?inner p'" e] by (auto simp: fst_io_map_Inl)
  then obtain ad' where ad': "ad' \<in> set ads" "fst (insight_unit remote metrics p' b' ad') = Inl e"
    using paralellize_error [of ads "insight_unit remote metrics p' b'" e] by auto
  have "fst (fanout remote metrics periods bss ads) = Inl e"
    using e by (simp add: fanout_def fst_io_map_Inl)
  with p'(1) b'(1) ad' show ?thesis by blast
qed

lemma length_matrix: "length (matrix ps bs as) = length as * length ps * length bs"
proof -
  have "length (concat (map (\<lambda>b. map (\<lambda>ad. (p, b, ad)) as) bs)) = length as * length bs" for p :: 'a
    by (induction bs) simp_all
  then show ?thesis
    unfolding matrix_def by (induction ps) (simp_all add: algebra_simps)
qed

lemma matrix_product: "matrix ps bs as = List.product ps (List.product bs as)"
  by (simp add: matrix_def List.product_concat_map map_concat comp_def)

lemma distinct_matrix: "distinct ps \<Longrightarrow> distinct bs \<Longrightarrow> distinct as \<Longrightarrow> distinct (matrix ps bs as)"
  by (simp add: matrix_product distinct_product)

lemma set_matrix: "set (matrix ps bs as) = set ps \<times> set bs \<times> set as"
  by (simp add: matrix_product)

lemma map_JStr_eq: "map JStr b = map JStr b' \<longleftrightarrow> b = b'"
  by (rule inj_map_eq_map) (simp add: inj_def)

lemma distinct_matrix_key:
  assumes "distinct ps" "distinct bs" "distinct (map (field ''id'') ads)"
  shows "distinct (map matrix_key (matrix ps bs ads))"
proof -
  have d: "distinct ads" using assms(3) by (rule distinct_map [THEN iffD1, THEN conjunct1])
  have i: "inj_on (field ''id'') (set ads)" using assms(3) by (simp add: distinct_map)
  have "inj_on matrix_key (set (matrix ps bs ads))"
    using i by (auto simp: inj_on_def set_matrix matrix_key_def map_JStr_eq)
  then show ?thesis
    using assms(1,2) d by (simp add: distinct_map distinct_matrix)
qed

lemma request_key_unit_record: "request_key (unit_record remote metrics x) = matrix_key x"
  by (cases x) (simp add: request_key_def unit_record_def matrix_key_def insight_record_def field_def)

lemma insight_unit_fails:
  assumes "remote (insights_call metrics (field ''id'' ad) p b) = Inl cause"
  shows "isl (fst (insight_unit remote metrics p b ad))"
proof (cases "ad = JNull \<or> ad = JUndefined")
  case True
  then show ?thesis by (auto simp: insight_unit_def io_lift_def)
next
  case False
  then have g: "get_prop k ad = Inr (field k ad)" for k by (simp add: get_prop_field)
  show ?thesis
    using assms
    by (simp add: insight_unit_def g io_lift_def fetchAdInsights_def fetchGraphApi_def
          insights_call_def)
qed

lemma insight_unit_succeeds:
  assumes "\<not> isl (fst (insight_unit remote metrics p b ad))"
  shows "ad \<noteq> JNull \<and> ad \<noteq> JUndefined \<and>
         \<not> isl (remote (insights_call metrics (field ''id'' ad) p b))"
proof -
  have n: "ad \<noteq> JNull \<and> ad \<noteq> JUndefined"
    using assms by (auto simp: insight_unit_def io_lift_def)
  then have g: "get_prop k ad = Inr (field k ad)" for k by (simp add: get_prop_field)
  have "\<not> isl (remote (insights_call metrics (field ''id'' ad) p b))"
    using assms
    by (cases "remote (insights_call metrics (field ''id'' ad) p b)")
       (simp_all add: insight_unit_def g io_lift_def fetchAdInsights_def fetchGraphApi_def
          insights_call_def)
  with n show ?thesis by simp
qed

lemma js_join_strings: "js_join sep (JArr (map JStr bs)) = Inr (join sep bs)"
  by (simp add: comp_def)

lemma tableName_insight_record:
  "tableName (insight_record account_id ad_id period breakdowns insights) =
     Inr (''facebook_ads_insights_'' @ period @ ''_'' @ join ''_'' breakdowns)"
  by (simp add: tableName_def insight_record_def js_join_strings del: js_join.simps)

lemma tableName_example_record:
  "tableName (example_record i) = Inr ''facebook_ads_insights_daily_age_gender''"
  by (simp add: example_record_def tableName_insight_record)

lemma fanout_success:
  assumes run: "fanout remote metrics periods bss ads = (Inr records, calls)"
    and ne: "periods \<noteq> []" "bss \<noteq> []"
  shows "records = map (unit_record remote metrics) (matrix periods bss ads) \<and>
         calls = map (unit_call metrics) (matrix periods bss ads)"
proof -
  have u: "\<not> isl (fst (insight_unit remote metrics p b ad))"
    if "p \<in> set periods" "b \<in> set bss" "ad \<in> set ads" for p b ad
  proof
    assume "isl (fst (insight_unit remote metrics p b ad))"
    from fanout_fails [OF that this] run show False by auto
  qed
  obtain p0 b0 where pb: "p0 \<in> set periods" "b0 \<in> set bss"
    using ne by (cases periods; cases bss) auto
  have a: "\<forall>ad\<in>set ads. ad \<noteq> JNull \<and> ad \<noteq> JUndefined"
    using insight_unit_succeeds [OF u [OF pb]] by blast
  have b: "\<forall>p\<in>set periods. \<forall>b\<in>set bss. \<forall>ad\<in>set ads.
             \<not> isl (remote (insights_call metrics (field ''id'' ad) p b))"
    using insight_unit_succeeds [OF u] by blast
  from fanout_ok [OF a b] run show ?thesis by simp
qed

lemma matrix_configured:
  "matrix [''daily'', ''lifetime''] [[''age'', ''gender''], [''country'', ''region'']] ads =
     map (\<lambda>ad. (''daily'', [''age'', ''gender''], ad)) ads @
     map (\<lambda>ad. (''daily'', [''country'', ''region''], ad)) ads @
     map (\<lambda>ad. (''lifetime'', [''age'', ''gender''], ad)) ads @
     map (\<lambda>ad. (''lifetime'', [''country'', ''region''], ad)) ads"
  by (simp add: matrix_def)

lemma brokenDownInsights_eval:
  "brokenDownInsights (\<lambda>c. Inl (RemoteError ''rate limit'')) []
     [JObj [(''id'', JStr i), (''account_id'', JStr ''act_7'')]]
   = (Inl (RemoteError ''rate limit''), [(''/'' @ i @ ''/insights'',
        Some [(''fields'', JArr []), (''breakdowns'', JArr [JStr ''age'', JStr ''gender'']),
              (''time_increment'', JNum 1)])])"
  by (simp add: brokenDownInsights_def fanout_def object_keys_def PERIODS_def BREAKDOWNS_def
      insight_unit_def io_lift_def fetchAdInsights_def fetchGraphApi_def insights_payload_def
      member_of_def)

lemma start_miss:
  assumes "\<not> isl (tableName d)" and "tables st (projr (tableName d)) = None"
  shows "start env st d = (st\<lparr>issued := issued st @ [first_call env d]\<rparr>, first_task env d)"
  using assms by (cases "tableName d") (simp_all add: start_def first_call_def first_task_def Let_def)

lemma start_all_misses:
  assumes "\<forall>d\<in>set ds. \<not> isl (tableName d)" and "\<forall>tn. tables st tn = None"
  shows "start_all env st ds =
           (st\<lparr>issued := issued st @ map (first_call env) ds\<rparr>, map (first_task env) ds)"
  using assms
proof (induction ds arbitrary: st)
  case Nil
  then show ?case by simp
next
  case (Cons d ds)
  have s: "start env st d = (st\<lparr>issued := issued st @ [first_call env d]\<rparr>, first_task env d)"
    using Cons.prems by (simp add: start_miss)
  have "start_all env (st\<lparr>issued := issued st @ [first_call env d]\<rparr>) ds =
      (st\<lparr>issued := issued st @ [first_call env d]\<rparr>
         \<lparr>issued := issued (st\<lparr>issued := issued st @ [first_call env d]\<rparr>) @ map (first_call env) ds\<rparr>,
       map (first_task env) ds)"
    by (rule Cons.IH) (use Cons.prems in simp_all)
  with s show ?case by simp
qed

lemma resume_get_tables:
  "filter is_GetTable (issued (fst (resume env st t))) = filter is_GetTable (issued st)"
  by (cases t) (simp_all split: sum.splits)

lemma run_schedule_get_tables:
  "filter is_GetTable (issued (fst (run_schedule env sched (st, ts)))) =
   filter is_GetTable (issued st)"
proof (induction sched arbitrary: st ts)
  case Nil
  then show ?case by simp
next
  case (Cons i sched)
  show ?case
  proof (cases "i < length ts")
    case True
    obtain st' t' where r: "resume env st (ts ! i) = (st', t')" by (cases "resume env st (ts ! i)")
    then have "filter is_GetTable (issued st') = filter is_GetTable (issued st)"
      using resume_get_tables [of env st "ts ! i"] by simp
    with True r Cons.IH [of st' "ts[i := t']"] show ?thesis by simp
  next
    case False
    then show ?thesis using Cons.IH [of st ts] by simp
  qed
qed

lemma load_get_tables:
  assumes "\<forall>d\<in>set ds. \<not> isl (tableName d)"
  shows "filter is_GetTable (issued (fst (load env ds sched))) = map (first_call env) ds"
proof -
  have s: "start_all env initial_state ds =
      (initial_state\<lparr>issued := map (first_call env) ds\<rparr>, map (first_task env) ds)"
    using start_all_misses [OF assms, of initial_state env] by (simp add: initial_state_def)
  have "filter is_GetTable (map (first_call env) ds) = map (first_call env) ds"
    by (induction ds) (simp_all add: first_call_def)
  then show ?thesis
    unfolding load_def s by (simp add: run_schedule_get_tables)
qed

lemma in_flight_after_start:
  assumes "\<forall>d\<in>set ds. \<not> isl (tableName d)"
  shows "in_flight (snd (start_all env initial_state ds)) = length ds"
proof -
  have s: "snd (start_all env initial_state ds) = map (first_task env) ds"
    using start_all_misses [OF assms, of initial_state env] by (simp add: initial_state_def)
  have "filter pending (map (first_task env) ds) = map (first_task env) ds"
    by (induction ds) (simp_all add: first_task_def)
  then show ?thesis by (simp add: s in_flight_def)
qed

lemma resume_no_rejection:
  assumes "\<forall>fq s. \<not> isl (getTable env fq s)" and "\<forall>t d. \<not> isl (table_insert env t d)"
  shows "rejections (fst (resume env st t)) = rejections st"
proof (cases t)
  case (AwaitGetTable d tn fq s)
  then show ?thesis using assms(1) [rule_format, of fq s] by (cases "getTable env fq s") simp_all
next
  case (AwaitInsert h d)
  then show ?thesis using assms(2) [rule_format, of h d] by (cases "table_insert env h d") simp_all
qed simp_all

lemma resume_issued_mono: "set (issued st) \<subseteq> set (issued (fst (resume env st t)))"
  by (cases t) (auto split: sum.splits)

lemma run_schedule_invariant:
  assumes "\<And>st t. P (fst (resume env st t)) = P st"
  shows "P (fst (run_schedule env sched (st, ts))) = P st"
proof (induction sched arbitrary: st ts)
  case Nil
  then show ?case by simp
next
  case (Cons i sched)
  show ?case
  proof (cases "i < length ts")
    case True
    obtain st' t' where r: "resume env st (ts ! i) = (st', t')" by (cases "resume env st (ts ! i)")
    then have "P st' = P st" using assms [of st "ts ! i"] by simp
    with True r Cons.IH [of st' "ts[i := t']"] show ?thesis by simp
  next
    case False
    then show ?thesis using Cons.IH [of st ts] by simp
  qed
qed

lemma run_schedule_issued_mono:
  "set (issued st) \<subseteq> set (issued (fst (run_schedule env sched (st, ts))))"
proof (induction sched arbitrary: st ts)
  case Nil
  then show ?case by simp
next
  case (Cons i sched)
  show ?case
  proof (cases "i < length ts")
    case True
    obtain st' t' where r: "resume env st (ts ! i) = (st', t')" by (cases "resume env st (ts ! i)")
    then have "set (issued st) \<subseteq> set (issued st')"
      using resume_issued_mono [of st env "ts ! i"] by simp
    with True r Cons.IH [of st' "ts[i := t']"] show ?thesis by auto
  next
    case False
    then show ?thesis using Cons.IH [of st ts] by simp
  qed
qed

section \<open>The fan-out matrix\<close>

text \<open>
  Claim C1. For ads with pairwise distinct ids, distinct periods and distinct breakdown
  combinations, when every insights call succeeds the fan-out returns exactly
  \<open>n \<times> p \<times> b\<close> records, one per element of the matrix; their (adId, period, breakdowns)
  keys are pairwise distinct; and the calls issued are exactly one insights call per
  element of the matrix, so no combination is requested twice.
\<close>

theorem fanout_produces_matrix:
  assumes "\<forall>ad\<in>set ads. ad \<noteq> JNull \<and> ad \<noteq> JUndefined"
    and "\<forall>p\<in>set periods. \<forall>b\<in>set breakdownss. \<forall>ad\<in>set ads.
           \<not> isl (remote (insights_call metrics (field ''id'' ad) p b))"
    and "distinct (map (field ''id'') ads)" and "distinct periods" and "distinct breakdownss"
  shows "\<exists>records calls.
      fanout remote metrics periods breakdownss ads = (Inr records, calls) \<and>
      length records = length ads * length periods * length breakdownss \<and>
      map request_key records = map matrix_key (matrix periods breakdownss ads) \<and>
      distinct (map request_key records) \<and>
      calls = map (unit_call metrics) (matrix periods breakdownss ads) \<and>
      length calls = length ads * length periods * length breakdownss"
proof -
  let ?m = "matrix periods breakdownss ads"
  define records where "records = map (unit_record remote metrics) ?m"
  have run: "fanout remote metrics periods breakdownss ads = (Inr records, map (unit_call metrics) ?m)"
    unfolding records_def by (rule fanout_ok [OF assms(1,2)])
  have keys: "map request_key records = map matrix_key ?m"
    by (simp add: records_def request_key_unit_record)
  have "distinct (map matrix_key ?m)"
    using assms(3-5) by (simp add: distinct_matrix_key)
  then have dist: "distinct (map request_key records)"
    by (simp only: keys)
  have len: "length records = length ads * length periods * length breakdownss"
    by (simp add: records_def length_matrix)
  have len': "length (map (unit_call metrics) ?m) = length ads * length periods * length breakdownss"
    by (simp add: length_matrix)
  from run len keys dist len' show ?thesis by blast
qed

theorem fanout_produces_matrix_witness:
  "\<exists>records calls.
      fanout (\<lambda>c. Inr []) [''spend''] [''daily'', ''lifetime''] [[''age'', ''gender'']]
        [JObj [(''id'', JStr ''1''), (''account_id'', JStr ''act_7'')],
         JObj [(''id'', JStr ''2''), (''account_id'', JStr ''act_7'')]] = (Inr records, calls) \<and>
      length records = 2 * 2 * 1 \<and>
      distinct (map request_key records) \<and>
      length calls = 2 * 2 * 1"
  using fanout_produces_matrix [of
      "[JObj [(''id'', JStr ''1''), (''account_id'', JStr ''act_7'')],
        JObj [(''id'', JStr ''2''), (''account_id'', JStr ''act_7'')]]"
      "[''daily'', ''lifetime'']" "[[''age'', ''gender'']]" "\<lambda>c. Inr []" "[''spend'']"]
  by (auto simp: field_def)

section \<open>Table names\<close>

text \<open>
  Claim C2, as amended. The record built for a period and a breakdown combination is
  routed to the table \<^verbatim>\<open>facebook_ads_insights_{period}_{names joined by underscore}\<close>, the
  names in the order given, and the qualified name is
  \<^verbatim>\<open>{project}.facebook_ads_insights.{tableName}\<close>. The name depends on the period and the
  breakdowns only.
\<close>

theorem table_name_of_record:
  "tableName (insight_record account_id ad_id period breakdowns insights) =
     Inr (''facebook_ads_insights_'' @ period @ ''_'' @ join ''_'' breakdowns) \<and>
   fullyQualifiedTableName project
       (''facebook_ads_insights_'' @ period @ ''_'' @ join ''_'' breakdowns) =
     project @ ''.facebook_ads_insights.'' @
       ''facebook_ads_insights_'' @ period @ ''_'' @ join ''_'' breakdowns"
  by (simp add: tableName_def insight_record_def fullyQualifiedTableName_def js_join_strings del: js_join.simps)

text \<open>
  The name of the table for \<^verbatim>\<open>daily\<close> and \<^verbatim>\<open>[age, gender]\<close> starts with
  \<^verbatim>\<open>facebook_\<close>.
\<close>

theorem table_name_prefix_counterexample:
  "tableName (insight_record (JStr ''act_7'') (JStr ''1'') ''daily'' [''age'', ''gender''] [])
     = Inr ''facebook_ads_insights_daily_age_gender'' \<and>
   tableName (insight_record (JStr ''act_7'') (JStr ''1'') ''daily'' [''age'', ''gender''] [])
     \<noteq> Inr ''ads_insights_daily_age_gender''"
  by (simp add: tableName_def insight_record_def)

section \<open>Accounts of businesses\<close>

text \<open>
  Claim C3. With source \<^verbatim>\<open>business\<close>, two businesses and one account each, the script
  lists the businesses, then the accounts of each business, and returns the two listings
  as they are: two arrays of one account, not a sequence of two accounts.
\<close>

theorem business_accounts_nested:
  "fetchAdAccounts two_businesses (JStr ''business'') =
     (Inr [JArr [JObj [(''id'', JStr ''act_1'')]], JArr [JObj [(''id'', JStr ''act_2'')]]],
      [(''/me/businesses'', None), (''/b1/owned_ad_accounts'', None),
       (''/b2/owned_ad_accounts'', None)]) \<and>
   fst (fetchAdAccounts two_businesses (JStr ''business'')) \<noteq>
     Inr [JObj [(''id'', JStr ''act_1'')], JObj [(''id'', JStr ''act_2'')]]"
  by (simp add: fetchAdAccounts_def member_of_def AD_ACCOUNT_SOURCES_def fetchGraphApi_def
      two_businesses_def io_lift_def io_return_def)

section \<open>The insights call\<close>

text \<open>
  Claim C4. The call of \<open>fetchAdInsights\<close> goes to \<^verbatim>\<open>/{adId}/insights\<close> with the whole
  metric list as \<^verbatim>\<open>fields\<close> and the breakdown dimensions as \<^verbatim>\<open>breakdowns\<close>; its
  payload has \<^verbatim>\<open>time_increment = 1\<close> exactly when the period is \<^verbatim>\<open>daily\<close>, and no
  \<^verbatim>\<open>time_increment\<close> otherwise.
\<close>

theorem fetchAdInsights_payload:
  "fetchAdInsights remote metrics adId period breakdowns =
     (remote (insights_call metrics adId period breakdowns),
      [insights_call metrics adId period breakdowns]) \<and>
   fst (insights_call metrics adId period breakdowns) = ''/'' @ to_str adId @ ''/insights'' \<and>
   (\<exists>payload. snd (insights_call metrics adId period breakdowns) = Some payload \<and>
      map_of payload ''fields'' = Some (JArr (map JStr metrics)) \<and>
      map_of payload ''breakdowns'' = Some (JArr (map JStr breakdowns)) \<and>
      map_of payload ''time_increment'' = (if period = ''daily'' then Some (JNum 1) else None) \<and>
      (map_of payload ''time_increment'' = Some (JNum 1) \<longleftrightarrow> period = ''daily''))"
  by (simp add: fetchAdInsights_def fetchGraphApi_def insights_call_def insights_payload_def
      member_of_def PERIODS_def)

section \<open>A table without a schema\<close>

text \<open>
  Claim C5, as amended. The load raises nothing of its own when no schema is registered
  for a table name: for every record whose table has no schema it calls \<open>getTable\<close> with
  the qualified name and an absent schema, and when the warehouse client rejects no call
  no task of the load is rejected, whatever the order in which the tasks are resumed.
\<close>

theorem load_without_schema:
  assumes "\<forall>d\<in>set records. \<not> isl (tableName d)"
    and "\<forall>fq s. \<not> isl (getTable env fq s)" and "\<forall>t d. \<not> isl (table_insert env t d)"
  shows "rejections (fst (load env records schedule)) = [] \<and>
         (\<forall>d\<in>set records. schemas env (projr (tableName d)) = None \<longrightarrow>
            GetTable (fullyQualifiedTableName (projectId env) (projr (tableName d))) None
              \<in> set (issued (fst (load env records schedule))))"
proof -
  have s: "start_all env initial_state records =
      (initial_state\<lparr>issued := map (first_call env) records\<rparr>, map (first_task env) records)"
    using start_all_misses [OF assms(1), of initial_state env] by (simp add: initial_state_def)
  have "rejections (fst (load env records schedule)) =
      rejections (initial_state\<lparr>issued := map (first_call env) records\<rparr> :: ('a, 'b) loader_state)"
    unfolding load_def s
    by (rule run_schedule_invariant) (rule resume_no_rejection [OF assms(2,3)])
  then have a: "rejections (fst (load env records schedule)) = []"
    by (simp add: initial_state_def)
  have "set (map (first_call env) records) \<subseteq> set (issued (fst (load env records schedule)))"
    unfolding load_def s
    using run_schedule_issued_mono [of "initial_state\<lparr>issued := map (first_call env) records\<rparr>"]
    by simp
  then have b: "\<forall>d\<in>set records. first_call env d \<in> set (issued (fst (load env records schedule)))"
    by auto
  have "\<forall>d\<in>set records. schemas env (projr (tableName d)) = None \<longrightarrow>
            GetTable (fullyQualifiedTableName (projectId env) (projr (tableName d))) None
              \<in> set (issued (fst (load env records schedule)))"
    using b by (auto simp: first_call_def)
  with a show ?thesis by simp
qed

theorem load_without_schema_witness:
  "rejections (fst (load no_schemas [example_record ''1''] [0, 0])) = [] \<and>
   GetTable ''proj.facebook_ads_insights.facebook_ads_insights_daily_age_gender'' None
     \<in> set (issued (fst (load no_schemas [example_record ''1''] [0, 0])))"
  using load_without_schema [of "[example_record ''1'']" no_schemas "[0, 0]"]
  by (simp add: tableName_example_record no_schemas_def fullyQualifiedTableName_def)

text \<open>
  With no schema registered and a client that accepts every call, the load of one
  record succeeds: the table was requested without a schema and the record inserted.
\<close>

theorem load_succeeds_without_schema:
  "schemas no_schemas ''facebook_ads_insights_daily_age_gender'' = None \<and>
   promise_all (load no_schemas [example_record ''1''] [0, 0]) = Some (Inr ()) \<and>
   issued (fst (load no_schemas [example_record ''1''] [0, 0])) =
     [GetTable ''proj.facebook_ads_insights.facebook_ads_insights_daily_age_gender'' None,
      Insert ''proj.facebook_ads_insights.facebook_ads_insights_daily_age_gender''
        (example_record ''1'')]"
  by (simp add: load_def start_def tableName_example_record initial_state_def no_schemas_def
      fullyQualifiedTableName_def promise_all_def Let_def)

section \<open>An unknown source\<close>

text \<open>
  Claim C6. For a source that is neither \<^verbatim>\<open>personal\<close> nor \<^verbatim>\<open>business\<close>,
  \<open>fetchAdAccounts\<close> fails with the error for an unknown source and issues no call.
\<close>

theorem unknown_source_fails:
  assumes "source \<noteq> member_of AD_ACCOUNT_SOURCES ''personal''"
    and "source \<noteq> member_of AD_ACCOUNT_SOURCES ''business''"
  shows "fetchAdAccounts remote source =
           (Inl (Error (''Unknown ad accounts source '' @ to_str source)), [])"
  using assms by (simp add: fetchAdAccounts_def io_throw_def)

theorem unknown_source_fails_witness:
  "fetchAdAccounts (\<lambda>c. Inr []) (JStr ''agency'') =
     (Inl (Error ''Unknown ad accounts source agency''), [])"
  using unknown_source_fails [of "JStr ''agency''" "\<lambda>c. Inr []"]
  by (simp add: member_of_def AD_ACCOUNT_SOURCES_def)

section \<open>Failure of a fan-out request\<close>

text \<open>
  Claim C7, as amended. If the insights call of one element of the matrix fails, the
  whole fan-out fails and returns no record list. The error is the one a failing unit
  raised, unchanged: the transport's own error for one of the matrix's requests (or the
  TypeError of an ad that is \<^verbatim>\<open>null\<close> or \<^verbatim>\<open>undefined\<close>). The script wraps it in
  nothing that names the request.
\<close>

theorem fanout_failure_propagates:
  assumes "p \<in> set periods" and "b \<in> set breakdownss" and "ad \<in> set ads"
    and "remote (insights_call metrics (field ''id'' ad) p b) = Inl cause"
  shows "\<exists>e calls. fanout remote metrics periods breakdownss ads = (Inl e, calls) \<and>
           (\<exists>p'\<in>set periods. \<exists>b'\<in>set breakdownss. \<exists>ad'\<in>set ads.
              (e = TypeError \<and> (ad' = JNull \<or> ad' = JUndefined)) \<or>
              remote (insights_call metrics (field ''id'' ad') p' b') = Inl e)"
proof -
  from fanout_fails [OF assms(1-3) insight_unit_fails [of remote metrics ad p b cause, OF assms(4)]]
  obtain e p' b' ad' where e: "fst (fanout remote metrics periods breakdownss ads) = Inl e"
    and m: "p' \<in> set periods" "b' \<in> set breakdownss" "ad' \<in> set ads"
    and u: "fst (insight_unit remote metrics p' b' ad') = Inl e"
    by blast
  from insight_unit_error [OF u] m
  have "\<exists>p'\<in>set periods. \<exists>b'\<in>set breakdownss. \<exists>ad'\<in>set ads.
              (e = TypeError \<and> (ad' = JNull \<or> ad' = JUndefined)) \<or>
              remote (insights_call metrics (field ''id'' ad') p' b') = Inl e"
    by blast
  moreover obtain calls where "fanout remote metrics periods breakdownss ads = (Inl e, calls)"
    using e by (cases "fanout remote metrics periods breakdownss ads") auto
  ultimately show ?thesis by blast
qed

theorem fanout_failure_propagates_witness:
  "\<exists>e calls.
     fanout (\<lambda>c. Inl (RemoteError ''rate limit'')) [''spend''] [''daily''] [[''age'', ''gender'']]
       [JObj [(''id'', JStr ''1''), (''account_id'', JStr ''act_7'')]] = (Inl e, calls) \<and>
     e = RemoteError ''rate limit''"
  using fanout_failure_propagates [of "''daily''" "[''daily'']" "[''age'', ''gender'']"
      "[[''age'', ''gender'']]" "JObj [(''id'', JStr ''1''), (''account_id'', JStr ''act_7'')]"
      "[JObj [(''id'', JStr ''1''), (''account_id'', JStr ''act_7'')]]"
      "\<lambda>c. Inl (RemoteError ''rate limit'')" "[''spend'']" "RemoteError ''rate limit''"]
  by auto

text \<open>
  Two runs whose failing requests differ (\<^verbatim>\<open>/1/insights\<close> and \<^verbatim>\<open>/2/insights\<close>) fail
  with the same error: the error does not tell which request failed.
\<close>

theorem fanout_error_names_no_request:
  "fst (brokenDownInsights (\<lambda>c. Inl (RemoteError ''rate limit'')) []
     [JObj [(''id'', JStr ''1''), (''account_id'', JStr ''act_7'')]])
   = Inl (RemoteError ''rate limit'') \<and>
   fst (brokenDownInsights (\<lambda>c. Inl (RemoteError ''rate limit'')) []
     [JObj [(''id'', JStr ''2''), (''account_id'', JStr ''act_7'')]])
   = Inl (RemoteError ''rate limit'')"
  by (simp add: brokenDownInsights_eval)

section \<open>Records for the same table\<close>

text \<open>
  Claim C8. For two records of the same table and an empty cache, the load asks the
  warehouse for that table twice, whatever the order in which the tasks are resumed:
  both callbacks test the cache before either has stored a handle.
\<close>

theorem same_table_created_twice:
  "\<forall>schedule.
     filter is_GetTable
       (issued (fst (load all_schemas [example_record ''1'', example_record ''2''] schedule))) =
     [GetTable ''proj.facebook_ads_insights.facebook_ads_insights_daily_age_gender''
        (Some ''facebook_ads_insights_daily_age_gender''),
      GetTable ''proj.facebook_ads_insights.facebook_ads_insights_daily_age_gender''
        (Some ''facebook_ads_insights_daily_age_gender'')]"
  by (simp add: load_get_tables tableName_example_record first_call_def all_schemas_def
      fullyQualifiedTableName_def)

section \<open>Calls in flight during the load\<close>

text \<open>
  Claim C9. The load does not go through \<open>paralellize\<close>: with three records, three
  warehouse calls are in flight once \<^verbatim>\<open>map\<close> has returned.
\<close>

theorem load_unbounded_in_flight:
  "in_flight (snd (start_all all_schemas initial_state
      [example_record ''1'', example_record ''2'', example_record ''3''])) = 3"
  using in_flight_after_start [of
      "[example_record ''1'', example_record ''2'', example_record ''3'']" all_schemas]
  by (simp add: tableName_example_record del: start_all.simps)

section \<open>The configured dimensions\<close>

text \<open>
  Claim C10. The periods are \<^verbatim>\<open>daily\<close> and \<^verbatim>\<open>lifetime\<close> and the breakdown combinations
  are \<^verbatim>\<open>[age, gender]\<close> and \<^verbatim>\<open>[country, region]\<close>. When every insights call succeeds,
  the run's fan-out returns its records and has issued exactly four insights calls for
  each ad, one per pair of a period and a breakdown combination; there are four records
  for each ad, and they go to at most four tables.
\<close>

theorem configured_dimensions:
  assumes "\<forall>ad\<in>set ads. ad \<noteq> JNull \<and> ad \<noteq> JUndefined"
    and "\<forall>p\<in>set (object_keys PERIODS). \<forall>b\<in>set BREAKDOWNS. \<forall>ad\<in>set ads.
           \<not> isl (remote (insights_call metrics (field ''id'' ad) p b))"
  shows "object_keys PERIODS = [''daily'', ''lifetime''] \<and>
         BREAKDOWNS = [[''age'', ''gender''], [''country'', ''region'']] \<and>
         (\<exists>records calls.
            brokenDownInsights remote metrics ads = (Inr records, calls) \<and>
            calls =
              map (\<lambda>ad. insights_call metrics (field ''id'' ad) ''daily'' [''age'', ''gender'']) ads @
              map (\<lambda>ad. insights_call metrics (field ''id'' ad) ''daily'' [''country'', ''region'']) ads @
              map (\<lambda>ad. insights_call metrics (field ''id'' ad) ''lifetime'' [''age'', ''gender'']) ads @
              map (\<lambda>ad. insights_call metrics (field ''id'' ad) ''lifetime'' [''country'', ''region'']) ads \<and>
            length calls = 4 * length ads \<and>
            length records = 4 * length ads \<and>
            set (map tableName records) \<subseteq>
              {Inr ''facebook_ads_insights_daily_age_gender'',
               Inr ''facebook_ads_insights_daily_country_region'',
               Inr ''facebook_ads_insights_lifetime_age_gender'',
               Inr ''facebook_ads_insights_lifetime_country_region''} \<and>
            card (set (map tableName records)) \<le> 4)"
proof -
  let ?ps = "[''daily'', ''lifetime'']"
  let ?bs = "[[''age'', ''gender''], [''country'', ''region'']]"
  let ?names = "{Inr ''facebook_ads_insights_daily_age_gender'',
            Inr ''facebook_ads_insights_daily_country_region'',
            Inr ''facebook_ads_insights_lifetime_age_gender'',
            Inr ''facebook_ads_insights_lifetime_country_region''} :: (error + string) set"
  define records where "records = map (unit_record remote metrics) (matrix ?ps ?bs ads)"
  define calls where "calls = map (unit_call metrics) (matrix ?ps ?bs ads)"
  have k: "object_keys PERIODS = ?ps" by (simp add: object_keys_def PERIODS_def)
  have b: "BREAKDOWNS = ?bs" by (simp add: BREAKDOWNS_def)
  have ok: "\<forall>p\<in>set ?ps. \<forall>b\<in>set ?bs. \<forall>ad\<in>set ads.
              \<not> isl (remote (insights_call metrics (field ''id'' ad) p b))"
    using assms(2) unfolding k b .
  have run: "brokenDownInsights remote metrics ads = (Inr records, calls)"
    unfolding brokenDownInsights_def k b records_def calls_def
    by (rule fanout_ok [OF assms(1) ok])
  have c: "calls =
           map (\<lambda>ad. insights_call metrics (field ''id'' ad) ''daily'' [''age'', ''gender'']) ads @
           map (\<lambda>ad. insights_call metrics (field ''id'' ad) ''daily'' [''country'', ''region'']) ads @
           map (\<lambda>ad. insights_call metrics (field ''id'' ad) ''lifetime'' [''age'', ''gender'']) ads @
           map (\<lambda>ad. insights_call metrics (field ''id'' ad) ''lifetime'' [''country'', ''region'']) ads"
    unfolding calls_def matrix_configured by (simp add: unit_call_def comp_def)
  have lc: "length calls = 4 * length ads" unfolding c by simp
  have lr: "length records = 4 * length ads" unfolding records_def by (simp add: length_matrix)
  have t: "set (map tableName records) \<subseteq> ?names"
    unfolding records_def matrix_configured
    by (auto simp: unit_record_def tableName_insight_record)
  have "card (set (map tableName records)) \<le> card ?names"
    by (rule card_mono [OF _ t]) simp
  also have "\<dots> \<le> 4" by (simp add: card_insert_if)
  finally have cd: "card (set (map tableName records)) \<le> 4" .
  from run c lc lr t cd
  have "\<exists>records calls.
            brokenDownInsights remote metrics ads = (Inr records, calls) \<and>
            calls =
              map (\<lambda>ad. insights_call metrics (field ''id'' ad) ''daily'' [''age'', ''gender'']) ads @
              map (\<lambda>ad. insights_call metrics (field ''id'' ad) ''daily'' [''country'', ''region'']) ads @
              map (\<lambda>ad. insights_call metrics (field ''id'' ad) ''lifetime'' [''age'', ''gender'']) ads @
              map (\<lambda>ad. insights_call metrics (field ''id'' ad) ''lifetime'' [''country'', ''region'']) ads \<and>
            length calls = 4 * length ads \<and>
            length records = 4 * length ads \<and>
            set (map tableName records) \<subseteq> ?names \<and>
            card (set (map tableName records)) \<le> 4"
    by blast
  with k b show ?thesis by simp
qed

theorem configured_dimensions_witness:
  "\<exists>records calls.
     brokenDownInsights (\<lambda>c. Inr []) [''spend''] [example_ad ''1'', example_ad ''2''] =
       (Inr records, calls) \<and>
     calls =
       [insights_call [''spend''] (JStr ''1'') ''daily'' [''age'', ''gender''],
        insights_call [''spend''] (JStr ''2'') ''daily'' [''age'', ''gender''],
        insights_call [''spend''] (JStr ''1'') ''daily'' [''country'', ''region''],
        insights_call [''spend''] (JStr ''2'') ''daily'' [''country'', ''region''],
        insights_call [''spend''] (JStr ''1'') ''lifetime'' [''age'', ''gender''],
        insights_call [''spend''] (JStr ''2'') ''lifetime'' [''age'', ''gender''],
        insights_call [''spend''] (JStr ''1'') ''lifetime'' [''country'', ''region''],
        insights_call [''spend''] (JStr ''2'') ''lifetime'' [''country'', ''region'']] \<and>
     length calls = 4 * 2 \<and>
     length records = 4 * 2 \<and>
     card (set (map tableName records)) \<le> 4"
  using configured_dimensions [of "[example_ad ''1'', example_ad ''2'']" "\<lambda>c. Inr []" "[''spend'']"]
  by (auto simp: example_ad_def field_def)

end
